theory Spec2Isabelle
  imports Main
begin

section \<open>Data model (src/src/index.ts, lines 61--162)\<close>

text \<open>
  The interfaces \<^verbatim>\<open>IBooking\<close>, \<^verbatim>\<open>ISeat\<close> and \<^verbatim>\<open>IEvent\<close> become records. Of an event only
  the fields that the seat and booking routes read are kept (\<^verbatim>\<open>_id\<close>, \<^verbatim>\<open>date\<close>,
  \<^verbatim>\<open>totalSeats\<close>, \<^verbatim>\<open>registrationClosed\<close>); name, time, venue, description, password and
  creation time are never read by the operations modelled here. The two collections are
  lists of documents in insertion order; a document is identified by its position.
\<close>

datatype booking_status = Booked

record person =
  name :: string
  email :: string
  phone :: "string option"

record booking =
  date :: string
  bookedBy :: person
  status :: booking_status

record seat =
  seatId :: string
  row :: string
  column :: nat
  price :: nat
  eventId :: string
  bookings :: "booking list"

record event =
  ev_id :: string
  ev_date :: string
  totalSeats :: nat
  registrationClosed :: bool

record store =
  events :: "event list"
  seats :: "seat list"

record user =
  isAdmin :: bool

text \<open>One element of the \<^verbatim>\<open>bookings\<close> array of a request body. A missing string field is
  the empty string (both are falsy in the source's checks); a missing phone is \<open>None\<close>.\<close>

record booking_request =
  rq_seatId :: string
  rq_name :: string
  rq_email :: string
  rq_phone :: "string option"
  bookingDate :: string

text \<open>
  What the routes take from their surroundings: the current calendar date, Mongoose's
  \<^verbatim>\<open>isValidObjectId\<close>, the cast of a string to an ObjectId, the outcome of
  \<^verbatim>\<open>transporter.sendMail\<close> for a recipient (\<open>None\<close> when the mail is accepted, \<open>Some m\<close> when
  it throws an error with message \<open>m\<close>), whether the driver's \<^verbatim>\<open>abortTransaction\<close> throws
  when the transaction has already been committed, and the administrator password of the
  environment.

  An ObjectId is written as its \<^verbatim>\<open>toString()\<close>, the canonical 24 lower-case hexadecimal
  digits; this is what \<^verbatim>\<open>ev_id\<close> holds, and what \<^verbatim>\<open>event._id.toString()\<close> puts into the
  \<^verbatim>\<open>eventId\<close> of a seat. \<open>castObjectId\<close> gives the ObjectId a string casts to, or \<open>None\<close>
  when the cast fails: several spellings (upper-case digits, for one) cast to the same
  ObjectId.
\<close>

record env =
  today :: string
  isValidObjectId :: "string \<Rightarrow> bool"
  castObjectId :: "string \<Rightarrow> string option"
  sendMail :: "string \<Rightarrow> string option"
  abortAfterCommitThrows :: bool
  adminPassword :: string

datatype seat_status = StatusBooked | StatusAvailable

record seat_view =
  sv_seat :: seat
  sv_status :: seat_status
  sv_bookedBy :: "person option"

datatype body =
  Error string
  | Message string
  | BookedSeats "seat list"
  | SeatList "seat_view list"

text \<open>A handler either sends a response (status and JSON body) or its promise is rejected
  without any response having been sent.\<close>

datatype response = Response nat body | Unhandled string

section \<open>Strings\<close>

primrec starts_with :: "string \<Rightarrow> string \<Rightarrow> bool" where
  "starts_with s [] = True"
| "starts_with s (p # ps) = (case s of [] \<Rightarrow> False | c # cs \<Rightarrow> c = p \<and> starts_with cs ps)"

text \<open>\<^verbatim>\<open>String.prototype.includes\<close>.\<close>

primrec str_includes :: "string \<Rightarrow> string \<Rightarrow> bool" where
  "str_includes [] sub = (sub = [])"
| "str_includes (c # cs) sub = (starts_with (c # cs) sub \<or> str_includes cs sub)"

text \<open>\<^verbatim>\<open>Array.prototype.join\<close>.\<close>

fun join :: "string \<Rightarrow> string list \<Rightarrow> string" where
  "join sep [] = []"
| "join sep [x] = x"
| "join sep (x # y # ys) = x @ sep @ join sep (y # ys)"

definition is_upper :: "char \<Rightarrow> bool" where
  "is_upper c = (65 \<le> (of_char c :: nat) \<and> (of_char c :: nat) \<le> 90)"

definition is_digit :: "char \<Rightarrow> bool" where
  "is_digit c = (48 \<le> (of_char c :: nat) \<and> (of_char c :: nat) \<le> 57)"

definition is_digit19 :: "char \<Rightarrow> bool" where
  "is_digit19 c = (49 \<le> (of_char c :: nat) \<and> (of_char c :: nat) \<le> 57)"

text \<open>The regular expression \<^verbatim>\<open>/^[A-Z][1-9][0-9]?$/\<close>.\<close>

fun seatId_format :: "string \<Rightarrow> bool" where
  "seatId_format [a, b] = (is_upper a \<and> is_digit19 b)"
| "seatId_format [a, b, c] = (is_upper a \<and> is_digit19 b \<and> is_digit c)"
| "seatId_format s = False"

text \<open>The regular expression \<^verbatim>\<open>/^\d{4}-\d{2}-\d{2}$/\<close>.\<close>

definition date_format :: "string \<Rightarrow> bool" where
  "date_format s =
     (length s = 10 \<and> list_all is_digit (take 4 s) \<and> s ! 4 = CHR ''-''
      \<and> list_all is_digit (take 2 (drop 5 s)) \<and> s ! 7 = CHR ''-''
      \<and> list_all is_digit (drop 8 s))"

text \<open>
  \<^verbatim>\<open>String.prototype.trim\<close>, which the schema applies (\<^verbatim>\<open>trim: true\<close>) to the name, email
  and phone of a booking entry. A string of the source is modelled by its UTF-8 bytes.
  The white space that \<^verbatim>\<open>trim\<close> removes is ECMAScript's WhiteSpace and LineTerminator:
  the one-byte characters tab, line feed, vertical tab, form feed, carriage return and
  space; the two-byte U+00A0; and the three-byte U+1680, U+2000 to U+200A, U+2028,
  U+2029, U+202F, U+205F, U+3000 and U+FEFF.
\<close>

definition ws1 :: "char \<Rightarrow> bool" where
  "ws1 a = ((of_char a :: nat) \<in> {9, 10, 11, 12, 13, 32})"

definition ws2 :: "char \<Rightarrow> char \<Rightarrow> bool" where
  "ws2 a b = ((of_char a :: nat) = 194 \<and> (of_char b :: nat) = 160)"

definition ws3 :: "char \<Rightarrow> char \<Rightarrow> char \<Rightarrow> bool" where
  "ws3 a b c =
     (let x = (of_char a :: nat); y = (of_char b :: nat); z = (of_char c :: nat) in
      (x = 225 \<and> y = 154 \<and> z = 128)
      \<or> (x = 226 \<and> y = 128 \<and> ((128 \<le> z \<and> z \<le> 138) \<or> z = 168 \<or> z = 169 \<or> z = 175))
      \<or> (x = 226 \<and> y = 129 \<and> z = 159)
      \<or> (x = 227 \<and> y = 128 \<and> z = 128)
      \<or> (x = 239 \<and> y = 187 \<and> z = 191))"

text \<open>White space removed from the front of a string; with the flag set the string is
  read back to front, so that the bytes of a character come in reverse order.\<close>

fun strip_ws :: "bool \<Rightarrow> string \<Rightarrow> string" where
  "strip_ws r (a # b # c # s) =
     (if ws1 a then strip_ws r (b # c # s)
      else if (if r then ws2 b a else ws2 a b) then strip_ws r (c # s)
      else if (if r then ws3 c b a else ws3 a b c) then strip_ws r s
      else a # b # c # s)"
| "strip_ws r [a, b] =
     (if ws1 a then strip_ws r [b]
      else if (if r then ws2 b a else ws2 a b) then []
      else [a, b])"
| "strip_ws r [a] = (if ws1 a then [] else [a])"
| "strip_ws r [] = []"

definition trim :: "string \<Rightarrow> string" where
  "trim s = rev (strip_ws True (rev (strip_ws False s)))"

section \<open>Queries on the collections\<close>

text \<open>
  \<^verbatim>\<open>Event.findById(id)\<close> casts its argument to an ObjectId and looks for the event with that
  \<^verbatim>\<open>_id\<close>. When the cast fails the query throws a cast error; the callers below raise it
  before they look the event up. \<^verbatim>\<open>Event.findOne({ date })\<close> compares strings.
\<close>

definition findById :: "env \<Rightarrow> store \<Rightarrow> string \<Rightarrow> event option" where
  "findById en st i =
     (case castObjectId en i of
        None \<Rightarrow> None
      | Some c \<Rightarrow> find (\<lambda>e. ev_id e = c) (events st))"

definition cast_error :: "string \<Rightarrow> string" where
  "cast_error i = ''Cast to ObjectId failed for value '' @ i"

definition findByDate :: "store \<Rightarrow> string \<Rightarrow> event option" where
  "findByDate st d = find (\<lambda>e. ev_date e = d) (events st)"

text \<open>\<^verbatim>\<open>Seat.find({ eventId })\<close> and \<^verbatim>\<open>Seat.find({ seatId: { $in: seatIds }, eventId })\<close>.\<close>

definition seats_of_event :: "store \<Rightarrow> string \<Rightarrow> seat list" where
  "seats_of_event st eid = filter (\<lambda>s. eventId s = eid) (seats st)"

definition in_batch :: "string list \<Rightarrow> string \<Rightarrow> seat \<Rightarrow> bool" where
  "in_batch ids eid s = (seatId s \<in> set ids \<and> eventId s = eid)"

definition find_seats :: "store \<Rightarrow> string list \<Rightarrow> string \<Rightarrow> seat list" where
  "find_seats st ids eid = filter (in_batch ids eid) (seats st)"

text \<open>The compound unique index \<^verbatim>\<open>seatSchema.index({ seatId: 1, eventId: 1 }, { unique: true })\<close>
  (line 138): no two stored seats share both event and seat identifier.\<close>

definition seats_unique :: "store \<Rightarrow> bool" where
  "seats_unique st = distinct (map (\<lambda>s. (eventId s, seatId s)) (seats st))"

section \<open>Booking confirmation mail (lines 407--539)\<close>

text \<open>
  \<^verbatim>\<open>sendBookingConfirmation\<close> resolves (\<open>None\<close>) or rejects with an error (\<open>Some\<close> of its
  message). Every error raised in its body is caught and thrown again with the prefix
  \<^verbatim>\<open>Failed to send booking confirmation email: \<close>. The seats are looked up by seat identifier
  only, across all events. Reading \<^verbatim>\<open>seats[0].eventId\<close> of an empty result is a type error,
  whose message is the engine's.
\<close>

definition sendBookingConfirmation ::
  "env \<Rightarrow> store \<Rightarrow> string \<Rightarrow> string list \<Rightarrow> string \<Rightarrow> string \<Rightarrow> string option" where
  "sendBookingConfirmation en st rcpt seatIds nm bdate =
     map_option (\<lambda>m. ''Failed to send booking confirmation email: '' @ m)
       (if \<not> list_all seatId_format seatIds
        then Some (''Invalid seatId format: '' @ join '', '' seatIds)
        else let ss = filter (\<lambda>s. seatId s \<in> set seatIds) (seats st) in
          if length ss \<noteq> length seatIds
          then Some (''Not all seats found for seatIds: '' @ join '', '' seatIds)
          else case ss of
            [] \<Rightarrow> Some ''Cannot read properties of undefined''
          | s0 # _ \<Rightarrow>
              if \<not> list_all (\<lambda>s. eventId s = eventId s0) ss
              then Some (''Seats belong to different events: '' @ join '', '' seatIds)
              else if \<not> isValidObjectId en (eventId s0)
              then Some (''Invalid eventId format: '' @ eventId s0)
              else if castObjectId en (eventId s0) = None
              then Some (cast_error (eventId s0))
              else if findById en st (eventId s0) = None
              then Some (''Event not found for eventId: '' @ eventId s0)
              else if \<not> date_format bdate
              then Some (''Invalid bookingDate format: '' @ bdate)
              else sendMail en rcpt)"

section \<open>The booking route \<^verbatim>\<open>POST /api/seats/book\<close> (lines 1331--1490)\<close>

text \<open>
  The model is the handler of the route. The middleware in front of it
  (\<^verbatim>\<open>authenticateToken\<close>, which supplies the user, and the format checks \<^verbatim>\<open>validateDateFormat\<close>,
  \<^verbatim>\<open>validateEmail\<close> and \<^verbatim>\<open>validatePhone\<close>) either answers 400 or 401 without touching the
  store or passes the request on unchanged.
\<close>

text \<open>The checks made before the transaction is opened (lines 1335--1384). Each of them
  answers with status 400.\<close>

fun check_fields :: "booking_request list \<Rightarrow> string option" where
  "check_fields [] = None"
| "check_fields (b # bs) =
     (if rq_seatId b = [] \<or> rq_name b = [] \<or> rq_email b = [] \<or> bookingDate b = []
      then Some (''seatId, name, email, and bookingDate are required for seat '' @
                 (if rq_seatId b = [] then ''unknown'' else rq_seatId b))
      else if \<not> seatId_format (rq_seatId b)
      then Some (''Invalid seatId format: '' @ rq_seatId b)
      else check_fields bs)"

definition book_precheck :: "env \<Rightarrow> string \<Rightarrow> booking_request list \<Rightarrow> string option" where
  "book_precheck en eid bs =
     (if bs = [] \<or> eid = [] then Some ''bookings array and eventId are required''
      else if \<not> isValidObjectId en eid then Some ''Invalid eventId''
      else case check_fields bs of
        Some m \<Rightarrow> Some m
      | None \<Rightarrow>
          if list_ex (\<lambda>b. bookingDate b = today en) bs
          then Some ''Cannot book seats for the current date''
          else None)"

text \<open>The entry pushed onto \<^verbatim>\<open>seat.bookings\<close> (lines 1444--1452). The array casts it to the
  sub-document schema of lines 125--135, whose string setters trim name, email and phone.\<close>

definition new_booking :: "booking_request \<Rightarrow> booking" where
  "new_booking b =
     \<lparr>date = bookingDate b,
      bookedBy = \<lparr>name = trim (rq_name b), email = trim (rq_email b),
                  phone = map_option trim (rq_phone b)\<rparr>,
      status = Booked\<rparr>"

text \<open>\<^verbatim>\<open>seats.find((s) => s.seatId === booking.seatId)\<close> followed by the push: the first
  loaded seat with that identifier receives the entry.\<close>

fun push_booking :: "booking_request \<Rightarrow> seat list \<Rightarrow> seat list" where
  "push_booking b [] = []"
| "push_booking b (s # ss) =
     (if seatId s = rq_seatId b then s\<lparr>bookings := bookings s @ [new_booking b]\<rparr> # ss
      else s # push_booking b ss)"

text \<open>\<^verbatim>\<open>emailToSeats\<close>: an object keyed by email, holding the name of the first request with
  that email and the seat identifiers booked under it. The route runs \<^verbatim>\<open>validateEmail\<close>
  before the handler, so every key holds an \<^verbatim>\<open>@\<close>: it is neither an array index nor an
  inherited property, and \<^verbatim>\<open>Object.entries\<close> lists the keys in insertion order.\<close>

type_synonym email_groups = "(string \<times> string \<times> string list) list"

fun add_to_group :: "string \<Rightarrow> string \<Rightarrow> string \<Rightarrow> email_groups \<Rightarrow> email_groups" where
  "add_to_group em nm sid [] = [(em, nm, [sid])]"
| "add_to_group em nm sid ((e, n, ids) # gs) =
     (if e = em then (e, n, ids @ [sid]) # gs else (e, n, ids) # add_to_group em nm sid gs)"

text \<open>The loop of lines 1441--1458 over the requests of the batch.\<close>

fun apply_bookings ::
  "booking_request list \<Rightarrow> seat list \<Rightarrow> email_groups \<Rightarrow> seat list \<times> email_groups" where
  "apply_bookings [] ss gs = (ss, gs)"
| "apply_bookings (b # bs) ss gs =
     (if list_ex (\<lambda>s. seatId s = rq_seatId b) ss
      then apply_bookings bs (push_booking b ss)
             (add_to_group (rq_email b) (rq_name b) (rq_seatId b) gs)
      else apply_bookings bs ss gs)"

text \<open>Schema validation on \<^verbatim>\<open>save\<close>: the required strings of a seat and of its booking
  entries are not empty (lines 119--136). A request whose name or email is white space
  only passes the handler's own checks and is stopped here, after trimming.\<close>

definition booking_valid :: "booking \<Rightarrow> bool" where
  "booking_valid b = (date b \<noteq> [] \<and> name (bookedBy b) \<noteq> [] \<and> email (bookedBy b) \<noteq> [])"

definition seat_valid :: "seat \<Rightarrow> bool" where
  "seat_valid s =
     (seatId s \<noteq> [] \<and> row s \<noteq> [] \<and> eventId s \<noteq> [] \<and> list_all booking_valid (bookings s))"

text \<open>\<^verbatim>\<open>Promise.all(seats.map((seat) => seat.save({ session })))\<close>: the loaded documents are
  those the query selected, in the order of the collection, and each is written back to
  its own place.\<close>

fun save_all :: "(seat \<Rightarrow> bool) \<Rightarrow> seat list \<Rightarrow> seat list \<Rightarrow> seat list" where
  "save_all q ms [] = []"
| "save_all q ms (s # ss) =
     (if q s then (case ms of [] \<Rightarrow> s # save_all q [] ss | m # ms' \<Rightarrow> m # save_all q ms' ss)
      else s # save_all q ms ss)"

text \<open>
  The body of the transaction (lines 1388--1460). \<open>Inl m\<close> is an error with message \<open>m\<close>
  thrown before the commit; \<open>Inr\<close> carries the event, the saved seat documents, the email
  groups and the store as committed. The seats are looked up under
  \<^verbatim>\<open>event._id.toString()\<close>, not under the identifier of the request. Of the message of a validation error, which is
  Mongoose's, only the beginning is kept; it names the model and the failing path.
\<close>

definition book_txn ::
  "env \<Rightarrow> user \<Rightarrow> string \<Rightarrow> booking_request list \<Rightarrow> store
     \<Rightarrow> string + (event \<times> seat list \<times> email_groups \<times> store)" where
  "book_txn en u eid bs st =
     (if castObjectId en eid = None then Inl (cast_error eid)
      else case findById en st eid of
        None \<Rightarrow> Inl ''No event found for this eventId''
      | Some ev \<Rightarrow>
          if list_ex (\<lambda>b. bookingDate b \<noteq> ev_date ev) bs
          then Inl ''All booking dates must match event date''
          else if registrationClosed ev \<and> \<not> isAdmin u
          then Inl ''Registration for this event is closed''
          else let seatIds = map rq_seatId bs in
            if length (remdups seatIds) \<noteq> length seatIds
            then Inl ''Duplicate seatIds provided''
            else let ss = find_seats st seatIds (ev_id ev) in
              if length ss \<noteq> length seatIds
              then Inl (''Seats not found: '' @
                        join '', '' (filter (\<lambda>i. i \<notin> set (map seatId ss)) seatIds))
              else case find (\<lambda>s. find (\<lambda>b. date b = ev_date ev) (bookings s) \<noteq> None) ss of
                Some s \<Rightarrow> Inl (''Seat '' @ seatId s @ '' is already booked for this date'')
              | None \<Rightarrow>
                  let (ss', gs) = apply_bookings bs ss [] in
                  if \<not> list_all seat_valid ss' then Inl ''Seat validation failed''
                  else Inr (ev, ss', gs,
                            st\<lparr>seats := save_all (in_batch seatIds (ev_id ev)) ss' (seats st)\<rparr>))"

text \<open>The notifications after the commit (lines 1465--1467): the first rejection ends
  the loop.\<close>

fun notify_all :: "env \<Rightarrow> store \<Rightarrow> string \<Rightarrow> email_groups \<Rightarrow> string option" where
  "notify_all en st d [] = None"
| "notify_all en st d ((em, nm, ids) # gs) =
     (case sendBookingConfirmation en st em ids nm d of
        Some m \<Rightarrow> Some m
      | None \<Rightarrow> notify_all en st d gs)"

text \<open>The status chosen in the \<^verbatim>\<open>catch\<close> block (lines 1477--1485).\<close>

definition book_status :: "string \<Rightarrow> nat" where
  "book_status m =
     (if str_includes m ''already booked'' \<or> str_includes m ''not found''
         \<or> str_includes m ''Registration closed'' \<or> str_includes m ''Duplicate seatIds''
      then 400 else 500)"

text \<open>
  The handler. An error thrown inside the transaction aborts it, so the store is the one
  before the call. An error thrown by a notification comes after the commit: the store
  is the committed one, and the \<^verbatim>\<open>catch\<close> block calls \<^verbatim>\<open>abortTransaction\<close> on a committed
  transaction before it answers.
\<close>

definition book ::
  "env \<Rightarrow> user \<Rightarrow> string \<Rightarrow> booking_request list \<Rightarrow> store \<Rightarrow> response \<times> store" where
  "book en u eid bs st =
     (case book_precheck en eid bs of
        Some m \<Rightarrow> (Response 400 (Error m), st)
      | None \<Rightarrow>
          (case book_txn en u eid bs st of
             Inl m \<Rightarrow> (Response (book_status m) (Error m), st)
           | Inr (ev, ss, gs, st') \<Rightarrow>
               (case notify_all en st' (ev_date ev) gs of
                  None \<Rightarrow> (Response 200 (BookedSeats ss), st')
                | Some m \<Rightarrow>
                    if abortAfterCommitThrows en
                    then (Unhandled ''Cannot call abortTransaction after calling commitTransaction'', st')
                    else (Response (book_status m) (Error m), st'))))"

section \<open>Seat initialisation (lines 750--798) and the route \<^verbatim>\<open>POST /api/seats/initialize\<close>\<close>

definition rows :: "char list" where
  "rows = ''ABCDEFGHIJKLMNOPQRSTUVWXYZ''"

text \<open>\<^verbatim>\<open>Array.from({ length: 10 }, (_, i) => i + 1)\<close>.\<close>

definition columns :: "nat list" where
  "columns = [1..<11]"

text \<open>The decimal numeral of a number, as the template string \<^verbatim>\<open>`${row}${col}`\<close> prints it.\<close>

fun show_nat :: "nat \<Rightarrow> string" where
  "show_nat n =
     (if n < 10 then [char_of (48 + n)] else show_nat (n div 10) @ [char_of (48 + n mod 10)])"

definition new_seat :: "string \<Rightarrow> char \<Rightarrow> nat \<Rightarrow> seat" where
  "new_seat eid r c =
     \<lparr>seatId = r # show_nat c, row = [r], column = c, price = 200, eventId = eid, bookings = []\<rparr>"

text \<open>The inner loop over the columns and the outer loop over the rows, each with its
  \<^verbatim>\<open>break\<close>; the state is the array \<^verbatim>\<open>seats\<close> and the counter \<^verbatim>\<open>seatsGenerated\<close>.\<close>

fun gen_columns :: "string \<Rightarrow> nat \<Rightarrow> char \<Rightarrow> nat list \<Rightarrow> seat list \<times> nat \<Rightarrow> seat list \<times> nat" where
  "gen_columns eid tot r [] (acc, n) = (acc, n)"
| "gen_columns eid tot r (c # cs) (acc, n) =
     (if n \<ge> tot then (acc, n)
      else gen_columns eid tot r cs (acc @ [new_seat eid r c], Suc n))"

fun gen_rows :: "string \<Rightarrow> nat \<Rightarrow> char list \<Rightarrow> seat list \<times> nat \<Rightarrow> seat list \<times> nat" where
  "gen_rows eid tot [] (acc, n) = (acc, n)"
| "gen_rows eid tot (r # rs) (acc, n) =
     (case gen_columns eid tot r columns (acc, n) of
        (acc', n') \<Rightarrow> if n' \<ge> tot then (acc', n') else gen_rows eid tot rs (acc', n'))"

text \<open>\<^verbatim>\<open>countDocuments\<close>, the early return, \<^verbatim>\<open>deleteMany\<close> and \<^verbatim>\<open>insertMany\<close>. Failures of the
  store itself are not modelled.\<close>

definition initializeSeats :: "string \<Rightarrow> nat \<Rightarrow> store \<Rightarrow> store" where
  "initializeSeats eid tot st =
     (if length (seats_of_event st eid) \<ge> tot then st
      else st\<lparr>seats := filter (\<lambda>s. eventId s \<noteq> eid) (seats st)
                          @ fst (gen_rows eid tot rows ([], 0))\<rparr>)"


section \<open>Deleting an event, \<^verbatim>\<open>DELETE /api/events/:id\<close> (lines 1121--1186)\<close>



section \<open>Closing registration, \<^verbatim>\<open>POST /api/events/:id/end-registration\<close> (lines 1192--1268)\<close>

text \<open>\<^verbatim>\<open>event.save()\<close> writes the loaded document, the first with that identifier, back.\<close>

fun update_first :: "('a \<Rightarrow> bool) \<Rightarrow> ('a \<Rightarrow> 'a) \<Rightarrow> 'a list \<Rightarrow> 'a list" where
  "update_first p f [] = []"
| "update_first p f (x # xs) = (if p x then f x # xs else x # update_first p f xs)"

text \<open>
  The mails sent after the flag has been saved (lines 1234--1258) are each wrapped in a
  \<^verbatim>\<open>try\<close> whose \<^verbatim>\<open>catch\<close> only logs, so they change neither the answer nor the store and
  are left out.
\<close>

definition end_registration :: "env \<Rightarrow> string \<Rightarrow> store \<Rightarrow> response \<times> store" where
  "end_registration en i st =
     (if \<not> isValidObjectId en i then (Response 400 (Error ''Invalid event ID''), st)
      else if castObjectId en i = None
      then (Response 500 (Error ''Failed to end registration''), st)
      else case findById en st i of
        None \<Rightarrow> (Response 404 (Error ''Event not found''), st)
      | Some ev \<Rightarrow>
          if registrationClosed ev
          then (Response 400 (Error ''Registration is already closed''), st)
          else (Response 200 (Message ''Registration closed successfully''),
                st\<lparr>events := update_first (\<lambda>e. ev_id e = ev_id ev)
                                 (\<lambda>e. e\<lparr>registrationClosed := True\<rparr>) (events st)\<rparr>))"

section \<open>Listing seats, \<^verbatim>\<open>GET /api/seats\<close> (lines 1274--1323) and
  \<^verbatim>\<open>GET /api/seats/by-ids\<close> (lines 1533--1625)\<close>

text \<open>The object built for each seat at lines 1305--1312 and 1606--1613.\<close>

definition seat_with_status :: "string \<Rightarrow> seat \<Rightarrow> seat_view" where
  "seat_with_status d s =
     (case find (\<lambda>b. date b = d) (bookings s) of
        Some b \<Rightarrow> \<lparr>sv_seat = s, sv_status = StatusBooked, sv_bookedBy = Some (bookedBy b)\<rparr>
      | None \<Rightarrow> \<lparr>sv_seat = s, sv_status = StatusAvailable, sv_bookedBy = None\<rparr>)"

definition get_seats :: "env \<Rightarrow> string \<Rightarrow> store \<Rightarrow> response \<times> store" where
  "get_seats en d st =
     (if d = [] then (Response 400 (Error ''Date is required''), st)
      else if d = today en
      then (Response 400 (Error ''Cannot book seats for the current date''), st)
      else case findByDate st d of
        None \<Rightarrow> (Response 400 (Error ''No event scheduled for this date''), st)
      | Some ev \<Rightarrow>
          let st' = (if length (seats_of_event st (ev_id ev)) < totalSeats ev
                     then initializeSeats (ev_id ev) (totalSeats ev) st else st)
          in (Response 200 (SeatList (map (seat_with_status d) (seats_of_event st' (ev_id ev)))),
              st'))"

text \<open>The query parameter \<^verbatim>\<open>seatIds\<close>: absent, a string, an array of strings, or anything
  else (an object, or an array that holds something other than strings; both are answered
  400).\<close>

datatype qparam = QAbsent | QString string | QArray "string list" | QOther

text \<open>\<^verbatim>\<open>String.prototype.split(",")\<close>.\<close>

fun split_comma :: "string \<Rightarrow> string list" where
  "split_comma [] = [[]]"
| "split_comma (c # cs) =
     (if c = CHR '','' then [] # split_comma cs
      else case split_comma cs of [] \<Rightarrow> [[c]] | w # ws \<Rightarrow> (c # w) # ws)"

definition get_seats_by_ids :: "env \<Rightarrow> qparam \<Rightarrow> string \<Rightarrow> store \<Rightarrow> response \<times> store" where
  "get_seats_by_ids en seatIds d st =
     (if seatIds = QAbsent \<or> seatIds = QString [] \<or> d = []
      then (Response 400 (Error ''seatIds and date are required''), st)
      else case (case seatIds of QArray xs \<Rightarrow> Some xs | QString x \<Rightarrow> Some (split_comma x)
                 | _ \<Rightarrow> None) of
        None \<Rightarrow> (Response 400 (Error ''Invalid seatIds format''), st)
      | Some ids \<Rightarrow>
          if \<not> list_all seatId_format ids
          then (Response 400 (Error (''Invalid seatId format in: '' @ join '', '' ids)), st)
          else if d = today en
          then (Response 400 (Error ''Cannot fetch seats for the current date''), st)
          else case findByDate st d of
            None \<Rightarrow> (Response 400 (Error (''No event found for date: '' @ d)), st)
          | Some ev \<Rightarrow>
              let ss = find_seats st ids (ev_id ev) in
              if ss = [] \<or> length ss \<noteq> length ids
              then (Response 404 (Error (''Not all seats found for seatIds: '' @ join '', '' ids
                                         @ '' and date: '' @ d)), st)
              else (Response 200 (SeatList (map (seat_with_status d) ss)), st))"

section \<open>Notions used to state the properties\<close>

text \<open>The seat a committed batch leaves behind: the request naming the seat, if there is
  one, adds its entry at the end of the ledger.\<close>

definition booked_seat :: "booking_request list \<Rightarrow> seat \<Rightarrow> seat" where
  "booked_seat bs s =
     (case find (\<lambda>b. rq_seatId b = seatId s) bs of
        None \<Rightarrow> s
      | Some b \<Rightarrow> s\<lparr>bookings := bookings s @ [new_booking b]\<rparr>)"

text \<open>A seat document keeps its identity and its ledger keeps every entry it had, in
  place; a store keeps its events and every seat in that sense.\<close>

definition grows :: "seat \<Rightarrow> seat \<Rightarrow> bool" where
  "grows s s' =
     (seatId s' = seatId s \<and> eventId s' = eventId s \<and> row s' = row s \<and> column s' = column s
      \<and> price s' = price s \<and> take (length (bookings s)) (bookings s') = bookings s)"

definition store_grows :: "store \<Rightarrow> store \<Rightarrow> bool" where
  "store_grows st st' = (events st' = events st \<and> list_all2 grows (seats st) (seats st'))"


definition has_entry :: "store \<Rightarrow> string \<Rightarrow> string \<Rightarrow> string \<Rightarrow> bool" where
  "has_entry st eid sid d =
     list_ex (\<lambda>s. eventId s = eid \<and> seatId s = sid \<and> d \<in> set (map date (bookings s))) (seats st)"

text \<open>A call of one of the routes, with its environment and arguments, and the store it
  leaves.\<close>

datatype call =
  Book env user string "booking_request list"
  | EndRegistration env string
  | GetSeats env string
  | GetSeatsByIds env qparam string
  | Initialize env string int
  | DeleteEvent env string string





text \<open>The seat identifiers of the full hall in row-major order: rows A to Z, and in each
  row the columns 1 to 10.\<close>

definition row_major_ids :: "string list" where
  "row_major_ids = concat (map (\<lambda>r. map (\<lambda>c. r # show_nat c) [1..<11]) ''ABCDEFGHIJKLMNOPQRSTUVWXYZ'')"

text \<open>Every event is open again; used to compare a call on a closed event with the same
  call on the open one.\<close>

definition reopen :: "store \<Rightarrow> store" where
  "reopen st = st\<lparr>events := map (\<lambda>e. e\<lparr>registrationClosed := False\<rparr>) (events st)\<rparr>"

section \<open>A small hall used for the worked examples\<close>

text \<open>The cast of the examples: 24 hexadecimal digits, read without regard to case.\<close>

definition lower_hex :: "char \<Rightarrow> char option" where
  "lower_hex a =
     (let n = (of_char a :: nat) in
      if (48 \<le> n \<and> n \<le> 57) \<or> (97 \<le> n \<and> n \<le> 102) then Some a
      else if 65 \<le> n \<and> n \<le> 70 then Some (char_of (n + 32))
      else None)"

definition cast_hex :: "string \<Rightarrow> string option" where
  "cast_hex s =
     (if length s = 24 \<and> list_all (\<lambda>a. lower_hex a \<noteq> None) s
      then Some (map (\<lambda>a. the (lower_hex a)) s) else None)"

definition ex_env :: env where
  "ex_env = \<lparr>today = ''2025-05-01'', isValidObjectId = (\<lambda>s. cast_hex s \<noteq> None),
             castObjectId = cast_hex, sendMail = (\<lambda>_. None), abortAfterCommitThrows = True,
             adminPassword = ''secret''\<rparr>"

definition ex_id :: string where
  "ex_id = ''665f1c2ab7e4d9a0c3f81e52''"

text \<open>Another spelling of the same ObjectId.\<close>

definition ex_id_upper :: string where
  "ex_id_upper = ''665F1C2AB7E4D9A0C3F81E52''"

definition ex_event :: event where
  "ex_event = \<lparr>ev_id = ex_id, ev_date = ''2025-06-01'', totalSeats = 3,
               registrationClosed = False\<rparr>"

definition ex_store :: store where
  "ex_store = \<lparr>events = [ex_event],
               seats = [new_seat ex_id CHR ''A'' 1, new_seat ex_id CHR ''A'' 2,
                        new_seat ex_id CHR ''A'' 3]\<rparr>"

definition ex_request :: "string \<Rightarrow> booking_request" where
  "ex_request sid = \<lparr>rq_seatId = sid, rq_name = ''Asha'', rq_email = ''a@x.com'',
                     rq_phone = None, bookingDate = ''2025-06-01''\<rparr>"

definition ex_entry :: booking where
  "ex_entry = \<lparr>date = ''2025-06-01'',
               bookedBy = \<lparr>name = ''Asha'', email = ''a@x.com'', phone = None\<rparr>,
               status = Booked\<rparr>"

definition ex_user :: user where
  "ex_user = \<lparr>isAdmin = False\<rparr>"

definition ex_admin :: user where
  "ex_admin = \<lparr>isAdmin = True\<rparr>"

text \<open>The hall after seats A1 and A2 have been booked.\<close>

definition ex_store_booked :: store where
  "ex_store_booked =
     \<lparr>events = [ex_event],
      seats = [(new_seat ex_id CHR ''A'' 1)\<lparr>bookings := [ex_entry]\<rparr>,
               (new_seat ex_id CHR ''A'' 2)\<lparr>bookings := [ex_entry]\<rparr>,
               new_seat ex_id CHR ''A'' 3]\<rparr>"

text \<open>The hall with registration closed, and an environment whose mail transport is
  down.\<close>

definition ex_store_closed :: store where
  "ex_store_closed = ex_store\<lparr>events := [ex_event\<lparr>registrationClosed := True\<rparr>]\<rparr>"

definition ex_env_mail_down :: env where
  "ex_env_mail_down = ex_env\<lparr>sendMail := (\<lambda>_. Some ''Connection timeout'')\<rparr>"

definition ex_store_a1 :: store where
  "ex_store_a1 =
     ex_store\<lparr>seats := [(new_seat ex_id CHR ''A'' 1)\<lparr>bookings := [ex_entry]\<rparr>,
                         new_seat ex_id CHR ''A'' 2, new_seat ex_id CHR ''A'' 3]\<rparr>"

text \<open>A request whose occupant name carries a leading space; and one whose name is
  preceded by a no-break space (U+00A0, the bytes 194 and 160) and followed by a tab.\<close>

definition ex_request_padded :: booking_request where
  "ex_request_padded = (ex_request ''A1'')\<lparr>rq_name := '' Asha''\<rparr>"

definition ex_request_nbsp :: booking_request where
  "ex_request_nbsp =
     (ex_request ''A2'')\<lparr>rq_name := [char_of (194 :: nat), char_of (160 :: nat)] @ ''Asha'' @
                                        [char_of (9 :: nat)]\<rparr>"


text \<open>Among the stored events there is one whose \<^verbatim>\<open>_id\<close> is the ObjectId the identifier
  casts to and whose registration is open; and the stored events once every event with
  that \<^verbatim>\<open>_id\<close> is closed.\<close>

definition open_event_exists :: "env \<Rightarrow> store \<Rightarrow> string \<Rightarrow> bool" where
  "open_event_exists en st i =
     list_ex (\<lambda>e. castObjectId en i = Some (ev_id e) \<and> \<not> registrationClosed e) (events st)"

definition close_event :: "env \<Rightarrow> string \<Rightarrow> store \<Rightarrow> store" where
  "close_event en i st =
     st\<lparr>events := map (\<lambda>e. if castObjectId en i = Some (ev_id e)
                             then e\<lparr>registrationClosed := True\<rparr> else e) (events st)\<rparr>"

text \<open>The primary key: no two stored events share an \<^verbatim>\<open>_id\<close>.\<close>

definition events_unique :: "store \<Rightarrow> bool" where
  "events_unique st = distinct (map ev_id (events st))"

text \<open>The seats of one full row, as the inner loop makes them.\<close>

definition row_seats :: "string \<Rightarrow> char \<Rightarrow> seat list" where
  "row_seats eid r = map (new_seat eid r) columns"

text \<open>An event of fifteen seats whose seats have not been generated yet.\<close>

definition ex_store_empty :: store where
  "ex_store_empty = \<lparr>events = [ex_event\<lparr>totalSeats := 15\<rparr>], seats = []\<rparr>"


definition ex_available :: "seat \<Rightarrow> seat_view" where
  "ex_available s = \<lparr>sv_seat = s, sv_status = StatusAvailable, sv_bookedBy = None\<rparr>"

text \<open>The listing entry of seat A1 once it is booked.\<close>

definition ex_booked_view :: seat_view where
  "ex_booked_view =
     \<lparr>sv_seat = (new_seat ex_id CHR ''A'' 1)\<lparr>bookings := [ex_entry]\<rparr>,
      sv_status = StatusBooked, sv_bookedBy = Some (bookedBy ex_entry)\<rparr>"

text \<open>The hall next to a second event, whose single seat is called A1 as well.\<close>

definition ex_id2 :: string where
  "ex_id2 = ''665f1c2ab7e4d9a0c3f81e99''"

definition ex_store_two :: store where
  "ex_store_two =
     \<lparr>events = [ex_event, \<lparr>ev_id = ex_id2, ev_date = ''2025-07-01'', totalSeats = 1,
                            registrationClosed = False\<rparr>],
      seats = seats ex_store @ [new_seat ex_id2 CHR ''A'' 1]\<rparr>"

section \<open>The booking transaction: what a commit writes\<close>

text \<open>
  Under the unique index the seats loaded by the transaction carry pairwise distinct
  identifiers, one for each identifier of the batch, so the loop that pushes the entries
  and the write-back amount to mapping \<open>booked_seat\<close> over the seats of the event.
\<close>

lemma save_all_map_filter:
  "save_all q (map f (filter q xs)) xs = map (\<lambda>s. if q s then f s else s) xs"
  by (induction xs) auto

lemma push_booking_map:
  "distinct (map seatId ss) \<Longrightarrow>
   push_booking b ss =
     map (\<lambda>s. if seatId s = rq_seatId b then s\<lparr>bookings := bookings s @ [new_booking b]\<rparr> else s) ss"
proof (induction ss)
  case Nil
  then show ?case by simp
next
  case (Cons a ss)
  show ?case
  proof (cases "seatId a = rq_seatId b")
    case True
    then have "\<forall>s\<in>set ss. seatId s \<noteq> rq_seatId b" using Cons.prems by force
    then have "map (\<lambda>s. if seatId s = rq_seatId b
                 then s\<lparr>bookings := bookings s @ [new_booking b]\<rparr> else s) ss = ss"
      by (simp add: map_idI)
    then show ?thesis using True by simp
  next
    case False
    then show ?thesis using Cons by simp
  qed
qed

lemma seatId_push_booking [simp]: "map seatId (push_booking b ss) = map seatId ss"
  by (induction ss) auto

lemma booked_seat_Cons:
  "booked_seat (b # bs) s =
     (if rq_seatId b = seatId s then s\<lparr>bookings := bookings s @ [new_booking b]\<rparr>
      else booked_seat bs s)"
  by (simp add: booked_seat_def)

lemma booked_seat_absent:
  "seatId s \<notin> rq_seatId ` set bs \<Longrightarrow> booked_seat bs s = s"
  by (induction bs) (auto simp: booked_seat_def)

lemma apply_bookings_map:
  "distinct (map seatId ss) \<Longrightarrow> distinct (map rq_seatId bs) \<Longrightarrow>
   fst (apply_bookings bs ss gs) = map (booked_seat bs) ss"
proof (induction bs arbitrary: ss gs)
  case Nil
  then show ?case by (simp add: booked_seat_def)
next
  case (Cons b bs)
  show ?case
  proof (cases "list_ex (\<lambda>s. seatId s = rq_seatId b) ss")
    case True
    have d: "distinct (map seatId (push_booking b ss))" using Cons.prems by simp
    have "fst (apply_bookings (b # bs) ss gs) = map (booked_seat bs) (push_booking b ss)"
      using True Cons.IH[OF d] Cons.prems by simp
    also have "\<dots> = map (booked_seat (b # bs)) ss"
      using Cons.prems
      by (auto simp: push_booking_map booked_seat_Cons booked_seat_absent)
    finally show ?thesis .
  next
    case False
    then have "\<forall>s\<in>set ss. seatId s \<noteq> rq_seatId b" by (simp add: list_ex_iff)
    then have "map (booked_seat (b # bs)) ss = map (booked_seat bs) ss"
      by (auto simp: booked_seat_Cons)
    then show ?thesis using False Cons by simp
  qed
qed

lemma find_seats_distinct:
  "seats_unique st \<Longrightarrow> distinct (map seatId (find_seats st ids eid))"
proof -
  assume u: "seats_unique st"
  have "distinct (map (\<lambda>s. (eventId s, seatId s)) (filter (in_batch ids eid) (seats st)))"
    using u unfolding seats_unique_def by (rule distinct_map_filter)
  moreover have "map (\<lambda>s. (eventId s, seatId s)) (filter (in_batch ids eid) (seats st))
        = map (\<lambda>s. (eid, seatId s)) (filter (in_batch ids eid) (seats st))"
    by (auto simp: in_batch_def)
  ultimately have "distinct (map (Pair eid) (map seatId (filter (in_batch ids eid) (seats st))))"
    by (simp add: comp_def)
  then show ?thesis unfolding find_seats_def by (auto simp: distinct_map inj_on_def)
qed

lemma find_seats_covers:
  assumes "seats_unique st" "distinct ids" "length (find_seats st ids eid) = length ids"
  shows "seatId ` set (find_seats st ids eid) = set ids"
proof -
  let ?ss = "find_seats st ids eid"
  have sub: "seatId ` set ?ss \<subseteq> set ids" by (auto simp: find_seats_def in_batch_def)
  have "card (seatId ` set ?ss) = length ?ss"
    using find_seats_distinct[OF assms(1), of ids eid] distinct_card[of "map seatId ?ss"] by simp
  also have "\<dots> = card (set ids)" using assms by (simp add: distinct_card)
  finally show ?thesis using sub by (simp add: card_subset_eq)
qed

lemma grows_refl [simp]: "grows s s"
  by (simp add: grows_def)

lemma grows_trans: "grows a b \<Longrightarrow> grows b c \<Longrightarrow> grows a c"
  unfolding grows_def
  by (metis append_eq_conv_conj append_take_drop_id take_all_iff take_append nat_le_linear take_take min.absorb1 length_take min.cobounded2)

lemma list_all2_grows_refl [simp]: "list_all2 grows ss ss"
  by (simp add: list_all2_refl)

lemma push_booking_grows: "list_all2 grows ss (push_booking b ss)"
  by (induction ss) (auto simp: grows_def intro!: list_all2_refl)

lemma apply_bookings_grows: "list_all2 grows ss (fst (apply_bookings bs ss gs))"
proof (induction bs arbitrary: ss gs)
  case Nil
  then show ?case by simp
next
  case (Cons b bs)
  show ?case
  proof (cases "list_ex (\<lambda>s. seatId s = rq_seatId b) ss")
    case True
    have "list_all2 grows ss (push_booking b ss)" by (rule push_booking_grows)
    moreover have "list_all2 grows (push_booking b ss)
        (fst (apply_bookings bs (push_booking b ss)
               (add_to_group (rq_email b) (rq_name b) (rq_seatId b) gs)))"
      by (rule Cons.IH)
    ultimately show ?thesis using True
      by (auto intro: list_all2_trans[where ?P1.0 = grows and ?P2.0 = grows, rotated] grows_trans)
  next
    case False
    then show ?thesis using Cons.IH by simp
  qed
qed

lemma save_all_grows:
  "list_all2 grows (filter q xs) ms \<Longrightarrow> list_all2 grows xs (save_all q ms xs)"
proof (induction xs arbitrary: ms)
  case Nil
  then show ?case by simp
next
  case (Cons x xs)
  show ?case
  proof (cases "q x")
    case True
    then obtain m ms' where ms: "ms = m # ms'" and g: "grows x m"
      and r: "list_all2 grows (filter q xs) ms'"
      using Cons.prems by (auto simp: list_all2_Cons1)
    show ?thesis using True ms g Cons.IH[OF r] by simp
  next
    case False
    then show ?thesis using Cons by simp
  qed
qed

lemma book_txn_InrD:
  assumes "book_txn en u eid bs st = Inr (ev, ss, gs, st')"
  shows "findById en st eid = Some ev"
    and "\<forall>b\<in>set bs. bookingDate b = ev_date ev"
    and "registrationClosed ev \<longrightarrow> isAdmin u"
    and "distinct (map rq_seatId bs)"
    and "length (find_seats st (map rq_seatId bs) (ev_id ev)) = length bs"
    and "\<forall>s\<in>set (find_seats st (map rq_seatId bs) (ev_id ev)).
           \<forall>e\<in>set (bookings s). date e \<noteq> ev_date ev"
    and "ss = fst (apply_bookings bs (find_seats st (map rq_seatId bs) (ev_id ev)) [])"
    and "list_all seat_valid ss"
    and "st' = st\<lparr>seats := save_all (in_batch (map rq_seatId bs) (ev_id ev)) ss (seats st)\<rparr>"
  using assms unfolding book_txn_def
  by (auto split: option.splits if_splits prod.splits
      simp: Let_def list_ex_iff find_None_iff length_remdups_eq)

lemma findById_SomeD:
  "findById en st eid = Some ev \<Longrightarrow> castObjectId en eid = Some (ev_id ev) \<and> ev \<in> set (events st)"
  unfolding findById_def by (auto simp: find_Some_iff split: option.splits)

lemma book_txn_grows:
  assumes "book_txn en u eid bs st = Inr (ev, ss, gs, st')"
  shows "store_grows st st'"
proof -
  let ?ids = "map rq_seatId bs"
  note d = book_txn_InrD[OF assms]
  have "list_all2 grows (filter (in_batch ?ids (ev_id ev)) (seats st)) ss"
    using d(7) apply_bookings_grows[of "find_seats st ?ids (ev_id ev)" bs "[]"]
    by (simp add: find_seats_def)
  then have "list_all2 grows (seats st) (save_all (in_batch ?ids (ev_id ev)) ss (seats st))"
    by (rule save_all_grows)
  then show ?thesis using d(9) by (simp add: store_grows_def)
qed

lemma book_cases:
  "(\<exists>code m. book en u eid bs st = (Response code (Error m), st) \<and> (code = 400 \<or> code = 500)
       \<and> (book_precheck en eid bs \<noteq> None \<or> isl (book_txn en u eid bs st)))
   \<or> (\<exists>ev ss gs st'. book_precheck en eid bs = None \<and> book_txn en u eid bs st = Inr (ev, ss, gs, st')
        \<and> snd (book en u eid bs st) = st'
        \<and> (fst (book en u eid bs st) = Response 200 (BookedSeats ss)
            \<or> (\<exists>m. notify_all en st' (ev_date ev) gs = Some m
                 \<and> fst (book en u eid bs st) \<noteq> Response 200 (BookedSeats ss))))"
  unfolding book_def book_status_def
  by (auto split: option.splits sum.splits prod.splits)


lemma book_success:
  assumes "book en u eid bs st = (Response 200 body, st')"
  shows "\<exists>ev ss gs. book_precheck en eid bs = None \<and> book_txn en u eid bs st = Inr (ev, ss, gs, st')
           \<and> body = BookedSeats ss"
  using assms unfolding book_def book_status_def
  by (auto split: option.splits sum.splits prod.splits if_splits)

lemma in_batch_booked_seat:
  "(if in_batch (map rq_seatId bs) eid s then booked_seat bs s else s)
     = (if eventId s = eid then booked_seat bs s else s)"
  by (auto simp: in_batch_def booked_seat_absent)

lemma book_txn_seats:
  assumes u: "seats_unique st" and t: "book_txn en u eid bs st = Inr (ev, ss, gs, st')"
  shows "seats st' = map (\<lambda>s. if eventId s = (ev_id ev) then booked_seat bs s else s) (seats st)"
    and "seatId ` set (find_seats st (map rq_seatId bs) (ev_id ev)) = rq_seatId ` set bs"
    and "ss = map (booked_seat bs) (find_seats st (map rq_seatId bs) (ev_id ev))"
proof -
  let ?ids = "map rq_seatId bs"
  note d = book_txn_InrD[OF t]
  have ds: "distinct (map seatId (find_seats st ?ids (ev_id ev)))"
    using u by (rule find_seats_distinct)
  show ss: "ss = map (booked_seat bs) (find_seats st ?ids (ev_id ev))"
    using d(7) apply_bookings_map[OF ds d(4), of "[]"] by simp
  show "seatId ` set (find_seats st ?ids (ev_id ev)) = rq_seatId ` set bs"
    using find_seats_covers[OF u d(4), of "ev_id ev"] d(5) by simp
  have "seats st' = save_all (in_batch ?ids (ev_id ev)) (map (booked_seat bs) (filter (in_batch ?ids (ev_id ev)) (seats st))) (seats st)"
    using d(9) ss by (simp add: find_seats_def)
  also have "\<dots> = map (\<lambda>s. if in_batch ?ids (ev_id ev) s then booked_seat bs s else s) (seats st)"
    by (rule save_all_map_filter)
  finally show "seats st' = map (\<lambda>s. if eventId s = (ev_id ev) then booked_seat bs s else s) (seats st)"
    by (simp add: in_batch_booked_seat)
qed




lemma book_txn_conflict:
  assumes "castObjectId en eid = Some c" "has_entry st c sid d" "r \<in> set bs"
    "rq_seatId r = sid" "bookingDate r = d"
  shows "isl (book_txn en u eid bs st)"
proof (rule ccontr)
  assume "\<not> isl (book_txn en u eid bs st)"
  then obtain ev ss gs st' where t: "book_txn en u eid bs st = Inr (ev, ss, gs, st')"
    by (cases "book_txn en u eid bs st") auto
  note d = book_txn_InrD[OF t]
  have e: "ev_id ev = c" using findById_SomeD[OF d(1)] assms(1) by simp
  from assms(2) obtain s where s: "s \<in> set (seats st)" "eventId s = c" "seatId s = sid"
      "d \<in> date ` set (bookings s)"
    by (auto simp: has_entry_def list_ex_iff)
  have "s \<in> set (find_seats st (map rq_seatId bs) (ev_id ev))"
    using s assms(3,4) e by (force simp: find_seats_def in_batch_def)
  moreover have "d = ev_date ev" using d(2) assms(3,5) by auto
  moreover obtain e where "e \<in> set (bookings s)" "date e = d" using s(4) by auto
  ultimately show False using d(6) by simp
qed





lemma book_txn_booked_fails:
  assumes "findById en st eid = Some ev" "r \<in> set bs"
    "has_entry st (ev_id ev) (rq_seatId r) (ev_date ev)"
  shows "isl (book_txn en u eid bs st)"
proof (rule ccontr)
  assume "\<not> isl (book_txn en u eid bs st)"
  then obtain ev' ss gs st' where t: "book_txn en u eid bs st = Inr (ev', ss, gs, st')"
    by (cases "book_txn en u eid bs st") auto
  note d = book_txn_InrD[OF t]
  have "ev' = ev" using d(1) assms(1) by simp
  then have "bookingDate r = ev_date ev" using d(2) assms(2) by simp
  moreover have "castObjectId en eid = Some (ev_id ev)"
    using findById_SomeD[OF assms(1)] by simp
  ultimately show False using book_txn_conflict[OF _ assms(3,2) refl, of en eid u] t by simp
qed

lemma book_committed:
  assumes "book en u eid bs st = (a, st')" "a = Response 200 body \<or> st' \<noteq> st"
  shows "\<exists>ev ss gs. book_txn en u eid bs st = Inr (ev, ss, gs, st')"
  using assms book_cases[of en u eid bs st] by auto

lemma find_map_eq: "find p (map f xs) = map_option f (find (p \<circ> f) xs)"
  by (induction xs) auto

lemma findById_reopen:
  "findById en (reopen st) eid = map_option (\<lambda>e. e\<lparr>registrationClosed := False\<rparr>) (findById en st eid)"
  by (simp add: findById_def reopen_def find_map_eq comp_def split: option.splits)

lemma find_seats_reopen [simp]: "find_seats (reopen st) ids eid = find_seats st ids eid"
  by (simp add: find_seats_def reopen_def)

lemma seats_reopen [simp]: "seats (reopen st) = seats st"
  by (simp add: reopen_def)

lemma reopen_seats_update: "reopen (st\<lparr>seats := ss\<rparr>) = (reopen st)\<lparr>seats := ss\<rparr>"
  by (simp add: reopen_def)

lemma book_txn_reopen:
  assumes "isAdmin a \<or> findById en st eid = None \<or> \<not> registrationClosed (the (findById en st eid))"
  shows "book_txn en u eid bs (reopen st) =
     (case book_txn en a eid bs st of
        Inl m \<Rightarrow> Inl m
      | Inr (ev, ss, gs, st') \<Rightarrow> Inr (ev\<lparr>registrationClosed := False\<rparr>, ss, gs, reopen st'))"
  using assms unfolding book_txn_def
  by (auto simp: findById_reopen Let_def reopen_seats_update split: option.splits prod.splits)

lemma sendBookingConfirmation_reopen [simp]:
  "sendBookingConfirmation en (reopen st) rcpt ids nm d = sendBookingConfirmation en st rcpt ids nm d"
  by (simp add: sendBookingConfirmation_def findById_reopen Let_def cong: if_cong list.case_cong)

lemma notify_all_reopen [simp]:
  "notify_all en (reopen st) d gs = notify_all en st d gs"
  by (induction gs) (auto split: option.splits)

lemma book_reopen:
  assumes "isAdmin a \<or> findById en st eid = None \<or> \<not> registrationClosed (the (findById en st eid))"
  shows "fst (book en u eid bs (reopen st)) = fst (book en a eid bs st)"
    and "seats (snd (book en u eid bs (reopen st))) = seats (snd (book en a eid bs st))"
  unfolding book_def book_txn_reopen[OF assms, of u bs]
  by (auto split: option.splits sum.splits prod.splits)

lemma book_txn_closed:
  assumes "findById en st eid = Some ev" "registrationClosed ev" "\<not> isAdmin u"
  shows "isl (book_txn en u eid bs st)"
  using assms unfolding book_txn_def by simp

section \<open>Updating the first matching document\<close>

lemma find_update_first_same:
  "(\<And>x. p (f x) = p x) \<Longrightarrow> find p (update_first p f xs) = map_option f (find p xs)"
  by (induction xs) auto

lemma find_update_first_other:
  "(\<And>x. q (f x) = q x) \<Longrightarrow> (\<And>x. p x \<Longrightarrow> \<not> q x) \<Longrightarrow>
   find q (update_first p f xs) = find q xs"
  by (induction xs) auto

lemma update_first_rel:
  "list_all2 (\<lambda>x y. y = x \<or> (p x \<and> y = f x)) xs (update_first p f xs)"
  by (induction xs) (auto intro!: list_all2_refl)

lemma find_distinct:
  "distinct (map f xs) \<Longrightarrow> x \<in> set xs \<Longrightarrow> find (\<lambda>y. f y = f x) xs = Some x"
  by (induction xs) force+

lemma update_first_distinct:
  "distinct (map f xs) \<Longrightarrow>
   update_first (\<lambda>e. f e = c) g xs = map (\<lambda>e. if f e = c then g e else e) xs"
proof (induction xs)
  case Nil
  then show ?case by simp
next
  case (Cons x xs)
  show ?case
  proof (cases "f x = c")
    case True
    then have "\<forall>e\<in>set xs. f e \<noteq> c" using Cons.prems by (auto simp: image_iff)
    then have "map (\<lambda>e. if f e = c then g e else e) xs = xs" by (simp add: map_idI)
    then show ?thesis using True by simp
  next
    case False
    then show ?thesis using Cons by simp
  qed
qed

lemma close_closed: "registrationClosed e \<Longrightarrow> e\<lparr>registrationClosed := True\<rparr> = e"
  by (cases e) simp

lemma update_first_close:
  "list_all2 (\<lambda>e e'. e' = e \<or> (\<not> registrationClosed e \<and> e' = e\<lparr>registrationClosed := True\<rparr>))
     xs (update_first p (\<lambda>e. e\<lparr>registrationClosed := True\<rparr>) xs)"
  by (induction xs) (auto simp: close_closed intro!: list_all2_refl)

section \<open>Seat generation: the two loops take a prefix of the row-major enumeration\<close>

lemma gen_columns_take:
  "gen_columns eid tot r cs (acc, n)
     = (acc @ take (tot - n) (map (new_seat eid r) cs), n + min (tot - n) (length cs))"
proof (induction cs arbitrary: acc n)
  case Nil
  then show ?case by simp
next
  case (Cons c cs)
  show ?case
  proof (cases "n \<ge> tot")
    case True
    then show ?thesis by simp
  next
    case False
    then obtain k where k: "tot - n = Suc k" by (cases "tot - n") auto
    then have "tot - Suc n = k" by simp
    then show ?thesis using False k Cons.IH[of "acc @ [new_seat eid r c]" "Suc n"] by simp
  qed
qed

lemma gen_rows_take:
  "fst (gen_rows eid tot rs (acc, n)) = acc @ take (tot - n) (concat (map (row_seats eid) rs))"
proof (induction rs arbitrary: acc n)
  case Nil
  then show ?case by simp
next
  case (Cons r rs)
  let ?row = "map (new_seat eid r) columns"
  have len: "length ?row = 10" by (simp add: columns_def)
  show ?case
  proof (cases "n + min (tot - n) 10 \<ge> tot")
    case True
    then have "tot - n \<le> 10" by (simp add: min_def split: if_splits)
    then show ?thesis using True len
      by (simp add: gen_columns_take row_seats_def columns_def)
  next
    case False
    then have m: "min (tot - n) 10 = 10" by (simp add: min_def split: if_splits)
    have "fst (gen_rows eid tot (r # rs) (acc, n))
            = fst (gen_rows eid tot rs (acc @ take (tot - n) ?row, n + 10))"
      using False m len by (simp add: gen_columns_take columns_def)
    also have "\<dots> = (acc @ take (tot - n) ?row) @ take (tot - (n + 10)) (concat (map (row_seats eid) rs))"
      by (rule Cons.IH)
    also have "\<dots> = acc @ take (tot - n) (concat (map (row_seats eid) (r # rs)))"
      using m len by (simp add: row_seats_def min_def split: if_splits)
    finally show ?thesis .
  qed
qed

lemma map_seatId_rows:
  "map seatId (concat (map (row_seats eid) rs))
     = concat (map (\<lambda>r. map (\<lambda>c. r # show_nat c) [1..<11]) rs)"
  by (induction rs) (auto simp: row_seats_def columns_def new_seat_def)

lemma seatId_generated:
  "map seatId (fst (gen_rows eid tot rows ([], 0))) = take tot row_major_ids"
proof -
  have "map seatId (fst (gen_rows eid tot rows ([], 0)))
          = map seatId (take tot (concat (map (row_seats eid) rows)))"
    by (simp only: gen_rows_take append_Nil minus_nat.diff_0)
  also have "\<dots> = take tot (map seatId (concat (map (row_seats eid) rows)))"
    by (rule take_map[symmetric])
  also have "\<dots> = take tot row_major_ids"
    by (simp only: map_seatId_rows rows_def row_major_ids_def)
  finally show ?thesis .
qed

lemma show_nat_columns:
  "map show_nat [1..<11] = map (\<lambda>c. [c]) ''123456789'' @ [''10'']"
  by code_simp

lemma distinct_rows_ids:
  "distinct rs \<Longrightarrow> distinct ws \<Longrightarrow> distinct (concat (map (\<lambda>r. map (\<lambda>w. r # w) ws) rs))"
  by (induction rs) (auto simp: distinct_map inj_on_def)

lemma length_rows_ids: "length (concat (map (\<lambda>r. map (\<lambda>w. r # w) ws) rs)) = length rs * length ws"
  by (induction rs) auto

lemma row_major_ids_eq:
  "row_major_ids = concat (map (\<lambda>r. map (\<lambda>w. r # w) (map show_nat [1..<11])) ''ABCDEFGHIJKLMNOPQRSTUVWXYZ'')"
  by (simp add: row_major_ids_def comp_def del: show_nat.simps)

lemma distinct_row_major_ids: "distinct row_major_ids"
  unfolding row_major_ids_eq show_nat_columns
  by (rule distinct_rows_ids) simp_all

lemma length_row_major_ids: "length row_major_ids = 260"
  unfolding row_major_ids_eq show_nat_columns length_rows_ids by simp

lemma generated_props:
  "\<forall>s\<in>set (fst (gen_rows eid tot rs ([], 0))).
      eventId s = eid \<and> bookings s = [] \<and> price s = 200 \<and> seatId s = row s @ show_nat (column s)"
  by (auto simp: gen_rows_take row_seats_def new_seat_def dest!: in_set_takeD simp del: show_nat.simps)

lemma generated_event:
  "filter (\<lambda>s. eventId s = eid) (fst (gen_rows eid tot rs ([], 0))) = fst (gen_rows eid tot rs ([], 0))"
  using generated_props[of eid tot rs] by (intro filter_True) blast

lemma initializeSeats_regenerates:
  assumes "length (seats_of_event st eid) < c"
  shows "seats_of_event (initializeSeats eid c st) eid = fst (gen_rows eid c rows ([], 0))"
    and "filter (\<lambda>s. eventId s \<noteq> eid) (seats (initializeSeats eid c st))
           = filter (\<lambda>s. eventId s \<noteq> eid) (seats st)"
    and "events (initializeSeats eid c st) = events st"
proof -
  let ?gen = "fst (gen_rows eid c rows ([], 0))"
  have s: "seats (initializeSeats eid c st) = filter (\<lambda>s. eventId s \<noteq> eid) (seats st) @ ?gen"
    using assms by (simp add: initializeSeats_def)
  have g: "\<forall>s\<in>set ?gen. eventId s = eid" using generated_props[of eid c rows] by blast
  show "seats_of_event (initializeSeats eid c st) eid = ?gen"
    unfolding seats_of_event_def s using generated_event[of eid c rows] by simp
  have "filter (\<lambda>s. eventId s \<noteq> eid) ?gen = []" using g by (simp add: filter_empty_conv)
  then show "filter (\<lambda>s. eventId s \<noteq> eid) (seats (initializeSeats eid c st))
           = filter (\<lambda>s. eventId s \<noteq> eid) (seats st)"
    unfolding s by simp
  show "events (initializeSeats eid c st) = events st"
    using assms by (simp add: initializeSeats_def)
qed

section \<open>What each route does to the stored seats\<close>








section \<open>The unique index and the date guard are invariants of every route\<close>





section \<open>Entries survive every call that does not regenerate seats\<close>






section \<open>Closing registration\<close>

lemma findById_unique:
  assumes "events_unique st" "e \<in> set (events st)" "castObjectId en i = Some (ev_id e)"
  shows "findById en st i = Some e"
  using assms find_distinct[of ev_id "events st" e] by (simp add: findById_def events_unique_def)

lemma end_registration_fails:
  assumes "\<not> open_event_exists en st i"
  shows "\<exists>code m. end_registration en i st = (Response code (Error m), st)
           \<and> (code = 400 \<or> code = 404 \<or> code = 500)"
proof (cases "findById en st i")
  case None
  then show ?thesis by (simp add: end_registration_def)
next
  case (Some ev)
  then have "registrationClosed ev"
    using assms findById_SomeD[OF Some] by (auto simp: open_event_exists_def list_ex_iff)
  then show ?thesis using Some by (simp add: end_registration_def)
qed

lemma end_registration_closes:
  assumes v: "castObjectId en i = None \<or> isValidObjectId en i" and d: "events_unique st"
    and o: "open_event_exists en st i"
  shows "end_registration en i st
           = (Response 200 (Message ''Registration closed successfully''), close_event en i st)"
proof -
  from o obtain e where e: "e \<in> set (events st)" "castObjectId en i = Some (ev_id e)"
      "\<not> registrationClosed e"
    by (auto simp: open_event_exists_def list_ex_iff)
  have f: "findById en st i = Some e" using findById_unique[OF d e(1,2)] .
  have val: "isValidObjectId en i" using v e(2) by simp
  have "update_first (\<lambda>x. ev_id x = ev_id e) (\<lambda>x. x\<lparr>registrationClosed := True\<rparr>) (events st)
          = map (\<lambda>x. if ev_id x = ev_id e then x\<lparr>registrationClosed := True\<rparr> else x) (events st)"
    using d by (intro update_first_distinct) (simp add: events_unique_def)
  also have "\<dots> = events (close_event en i st)"
    using e(2) by (auto simp: close_event_def)
  finally have "st\<lparr>events := update_first (\<lambda>x. ev_id x = ev_id e)
                    (\<lambda>x. x\<lparr>registrationClosed := True\<rparr>) (events st)\<rparr> = close_event en i st"
    by (simp add: close_event_def)
  then show ?thesis using f val e(2,3) by (simp add: end_registration_def)
qed

lemma close_event_closed: "\<not> open_event_exists en (close_event en i st) i"
  by (auto simp: open_event_exists_def close_event_def list_ex_iff)

lemma end_registration_monotone:
  "list_all2 (\<lambda>e e'. e' = e \<or> (\<not> registrationClosed e \<and> e' = e\<lparr>registrationClosed := True\<rparr>))
     (events st) (events (snd (end_registration en i st)))"
  using update_first_close[of "events st"]
  by (auto simp: end_registration_def split: option.splits intro!: list_all2_refl)


section \<open>The seat listings\<close>

lemma seat_with_status_cases:
  "sv_seat (seat_with_status d s) = s
   \<and> (if \<exists>e\<in>set (bookings s). date e = d
       then sv_status (seat_with_status d s) = StatusBooked
            \<and> (\<exists>e\<in>set (bookings s). date e = d \<and> sv_bookedBy (seat_with_status d s) = Some (bookedBy e))
       else sv_status (seat_with_status d s) = StatusAvailable
            \<and> sv_bookedBy (seat_with_status d s) = None)"
  by (auto simp: seat_with_status_def find_None_iff find_Some_iff split: option.splits)

lemma get_seats_listing:
  assumes "get_seats en d st = (Response 200 (SeatList vs), st')"
  shows "\<exists>ev. findByDate st d = Some ev \<and> vs = map (seat_with_status d) (seats_of_event st' (ev_id ev))"
  using assms unfolding get_seats_def
  by (auto split: if_splits option.splits simp: Let_def)

lemma get_seats_by_ids_listing:
  assumes "get_seats_by_ids en q d st = (Response 200 (SeatList vs), st')"
  shows "st' = st \<and> (\<exists>ev ids. findByDate st d = Some ev \<and> vs = map (seat_with_status d) (find_seats st ids (ev_id ev)))"
  using assms unfolding get_seats_by_ids_def
  by (auto split: if_splits option.splits simp: Let_def)

section \<open>The claims\<close>




text \<open>
  Claim C2. The booking route is all-or-nothing. If a check made before the transaction
  rejects the request, or an error is thrown inside the transaction, or (in particular)
  the batch names a seat of the event (the one the identifier of the request casts to)
  that already carries an entry for the event's date,
  then the call answers 400 or 500 with an error and the store after the call is the
  store before it: no seat of the batch gains an entry.
\<close>

theorem book_all_or_nothing:
  assumes "book_precheck en eid bs \<noteq> None \<or> isl (book_txn en u eid bs st)
           \<or> (\<exists>r\<in>set bs. \<exists>ev. findById en st eid = Some ev
                 \<and> has_entry st (ev_id ev) (rq_seatId r) (ev_date ev))"
  shows "\<exists>code m. book en u eid bs st = (Response code (Error m), st)
           \<and> (code = 400 \<or> code = 500)"
proof -
  have "book_precheck en eid bs \<noteq> None \<or> isl (book_txn en u eid bs st)"
    using assms book_txn_booked_fails by blast
  then show ?thesis using book_cases[of en u eid bs st] by auto
qed

theorem book_all_or_nothing_witness:
  "(\<exists>r\<in>set [ex_request ''A3'', ex_request ''A2'']. \<exists>ev.
       findById ex_env ex_store_booked ex_id_upper = Some ev
       \<and> has_entry ex_store_booked (ev_id ev) (rq_seatId r) (ev_date ev))
   \<and> (\<exists>code m. book ex_env ex_user ex_id_upper [ex_request ''A3'', ex_request ''A2'']
                    ex_store_booked
                  = (Response code (Error m), ex_store_booked) \<and> (code = 400 \<or> code = 500))"
proof -
  have f: "findById ex_env ex_store_booked ex_id_upper = Some ex_event" by code_simp
  have h: "has_entry ex_store_booked (ev_id ex_event) (rq_seatId (ex_request ''A2''))
             (ev_date ex_event)"
    by code_simp
  have a: "\<exists>r\<in>set [ex_request ''A3'', ex_request ''A2'']. \<exists>ev.
       findById ex_env ex_store_booked ex_id_upper = Some ev
       \<and> has_entry ex_store_booked (ev_id ev) (rq_seatId r) (ev_date ev)"
    using f h by auto
  show ?thesis
    using book_all_or_nothing[where en = ex_env and eid = ex_id_upper
        and bs = "[ex_request ''A3'', ex_request ''A2'']" and u = ex_user
        and st = ex_store_booked] a
    by blast
qed




text \<open>
  Claim C4. A failure of the notification after the commit should neither undo the
  bookings nor make the call report failure. The bookings do stay recorded, but the
  rejection of \<^verbatim>\<open>sendBookingConfirmation\<close> is not caught where it is awaited (as it is in
  the route that closes registration): it reaches the \<^verbatim>\<open>catch\<close> block of the handler, and
  the caller gets no answer at all when aborting a committed transaction throws, and
  status 500 otherwise. The mail transport need not even fail: the confirmation looks the
  seats up by identifier across all events, so with a second event that has a seat A1 it
  finds two seats for one identifier and throws.
\<close>

theorem book_notification_failure:
  "book ex_env_mail_down ex_user ex_id [ex_request ''A1''] ex_store
     = (Unhandled ''Cannot call abortTransaction after calling commitTransaction'', ex_store_a1)
   \<and> book (ex_env_mail_down\<lparr>abortAfterCommitThrows := False\<rparr>) ex_user ex_id [ex_request ''A1'']
        ex_store
     = (Response 500 (Error ''Failed to send booking confirmation email: Connection timeout''),
        ex_store_a1)
   \<and> book (ex_env\<lparr>abortAfterCommitThrows := False\<rparr>) ex_user ex_id [ex_request ''A1'']
        ex_store_two
     = (Response 500 (Error (''Failed to send booking confirmation email: '' @
                             ''Not all seats found for seatIds: A1'')),
        ex_store_two\<lparr>seats := seats ex_store_a1 @ [new_seat ex_id2 CHR ''A'' 1]\<rparr>)"
  by code_simp

text \<open>
  Claim C5. A booking rejected because registration is closed and the requester is not an
  administrator should be reported as a client fault (status 400). The handler lists
  \<^verbatim>\<open>Registration closed\<close> among the messages that map to 400, but the error it throws
  reads \<^verbatim>\<open>Registration for this event is closed\<close>, which does not contain that text: the
  answer is 500.
\<close>

theorem book_closed_registration_status:
  "book ex_env ex_user ex_id [ex_request ''A1''] ex_store_closed
     = (Response 500 (Error ''Registration for this event is closed''), ex_store_closed)"
  by code_simp

text \<open>
  Claim C6. For every capacity \<open>c\<close> from 1 to 260: when the event holds fewer than \<open>c\<close>
  stored seats, \<^verbatim>\<open>initializeSeats\<close> leaves the event with exactly \<open>c\<close> seats whose
  identifiers are the first \<open>c\<close> of the row-major enumeration (rows A to Z, columns 1 to
  10), hence pairwise distinct, each seat with an empty ledger, the price 200 and its
  identifier made of its row and column; the seats of other events and the events are
  untouched. When the event already holds at least \<open>c\<close> seats the call returns the store
  as it is.
\<close>

theorem initializeSeats_row_major:
  assumes "1 \<le> c" "c \<le> 260"
  shows "(length (seats_of_event st eid) < c \<longrightarrow>
            map seatId (seats_of_event (initializeSeats eid c st) eid) = take c row_major_ids
          \<and> length (seats_of_event (initializeSeats eid c st) eid) = c
          \<and> distinct (map seatId (seats_of_event (initializeSeats eid c st) eid))
          \<and> (\<forall>s\<in>set (seats_of_event (initializeSeats eid c st) eid).
                bookings s = [] \<and> price s = 200 \<and> seatId s = row s @ show_nat (column s))
          \<and> filter (\<lambda>s. eventId s \<noteq> eid) (seats (initializeSeats eid c st))
              = filter (\<lambda>s. eventId s \<noteq> eid) (seats st)
          \<and> events (initializeSeats eid c st) = events st)
       \<and> (c \<le> length (seats_of_event st eid) \<longrightarrow> initializeSeats eid c st = st)"
proof (intro conjI impI)
  assume "c \<le> length (seats_of_event st eid)"
  then show "initializeSeats eid c st = st" by (simp add: initializeSeats_def)
next
  assume l: "length (seats_of_event st eid) < c"
  note r = initializeSeats_regenerates[OF l]
  show ids: "map seatId (seats_of_event (initializeSeats eid c st) eid) = take c row_major_ids"
    unfolding r(1) by (rule seatId_generated)
  have "length (map seatId (seats_of_event (initializeSeats eid c st) eid)) = c"
    unfolding ids using assms(2) by (simp add: length_row_major_ids)
  then show "length (seats_of_event (initializeSeats eid c st) eid) = c" by simp
  show "distinct (map seatId (seats_of_event (initializeSeats eid c st) eid))"
    unfolding ids using distinct_row_major_ids by (rule distinct_take)
  show "\<forall>s\<in>set (seats_of_event (initializeSeats eid c st) eid).
                bookings s = [] \<and> price s = 200 \<and> seatId s = row s @ show_nat (column s)"
    unfolding r(1) using generated_props[of eid c rows] by blast
  show "filter (\<lambda>s. eventId s \<noteq> eid) (seats (initializeSeats eid c st))
              = filter (\<lambda>s. eventId s \<noteq> eid) (seats st)" by (rule r(2))
  show "events (initializeSeats eid c st) = events st" by (rule r(3))
qed

theorem initializeSeats_row_major_witness:
  "(1::nat) \<le> 15 \<and> (15::nat) \<le> 260 \<and> length (seats_of_event ex_store_empty ex_id) < 15
   \<and> map seatId (seats_of_event (initializeSeats ex_id 15 ex_store_empty) ex_id)
        = [''A1'', ''A2'', ''A3'', ''A4'', ''A5'', ''A6'', ''A7'', ''A8'', ''A9'', ''A10'',
           ''B1'', ''B2'', ''B3'', ''B4'', ''B5'']
   \<and> length (seats_of_event (initializeSeats ex_id 15 ex_store_empty) ex_id) = 15
   \<and> initializeSeats ex_id 15 (initializeSeats ex_id 15 ex_store_empty)
        = initializeSeats ex_id 15 ex_store_empty"
proof -
  have a: "(1::nat) \<le> 15" "(15::nat) \<le> 260" by simp_all
  have l: "length (seats_of_event ex_store_empty ex_id) < 15" by code_simp
  have t: "take 15 row_major_ids
             = [''A1'', ''A2'', ''A3'', ''A4'', ''A5'', ''A6'', ''A7'', ''A8'', ''A9'', ''A10'',
                ''B1'', ''B2'', ''B3'', ''B4'', ''B5'']"
    by code_simp
  note w = initializeSeats_row_major[OF a, of ex_store_empty ex_id]
  have n: "length (seats_of_event (initializeSeats ex_id 15 ex_store_empty) ex_id) = 15"
    using w l by blast
  have "initializeSeats ex_id 15 (initializeSeats ex_id 15 ex_store_empty)
        = initializeSeats ex_id 15 ex_store_empty"
    using initializeSeats_row_major[OF a, of "initializeSeats ex_id 15 ex_store_empty" ex_id] n
    by simp
  then show ?thesis using w l t n by simp
qed

text \<open>
  Claim C7. When the event's registration is closed, a booking by a requester who is not
  an administrator fails (it answers 400 or 500 with an error and changes nothing). For an
  administrator the closed flag is not consulted: whenever the same request would be
  answered 200 were the event open, whoever makes it, the administrator's call on the
  closed event is answered 200 with the same body and leaves the same seats.
\<close>

theorem closed_registration_admin_override:
  "(findById en st eid = Some ev \<and> registrationClosed ev \<and> \<not> isAdmin u \<longrightarrow>
      (\<exists>code m. book en u eid bs st = (Response code (Error m), st) \<and> (code = 400 \<or> code = 500)))
   \<and> (isAdmin a \<and> fst (book en u eid bs (reopen st)) = Response 200 body \<longrightarrow>
        fst (book en a eid bs st) = Response 200 body
        \<and> seats (snd (book en a eid bs st)) = seats (snd (book en u eid bs (reopen st))))"
proof (intro conjI impI)
  assume "findById en st eid = Some ev \<and> registrationClosed ev \<and> \<not> isAdmin u"
  then have "isl (book_txn en u eid bs st)" using book_txn_closed by blast
  then show "\<exists>code m. book en u eid bs st = (Response code (Error m), st) \<and> (code = 400 \<or> code = 500)"
    using book_cases[of en u eid bs st] by auto
next
  assume h: "isAdmin a \<and> fst (book en u eid bs (reopen st)) = Response 200 body"
  then show "fst (book en a eid bs st) = Response 200 body"
    using book_reopen(1)[where a = a and st = st and eid = eid and en = en and u = u and bs = bs]
    by simp
next
  assume h: "isAdmin a \<and> fst (book en u eid bs (reopen st)) = Response 200 body"
  then show "seats (snd (book en a eid bs st)) = seats (snd (book en u eid bs (reopen st)))"
    using book_reopen(2)[where a = a and st = st and eid = eid and en = en and u = u and bs = bs]
    by simp
qed

theorem closed_registration_admin_override_witness:
  "(findById ex_env ex_store_closed ex_id = Some (ex_event\<lparr>registrationClosed := True\<rparr>)
    \<and> registrationClosed (ex_event\<lparr>registrationClosed := True\<rparr>) \<and> \<not> isAdmin ex_user)
   \<and> (\<exists>code m. book ex_env ex_user ex_id [ex_request ''A1''] ex_store_closed
          = (Response code (Error m), ex_store_closed) \<and> (code = 400 \<or> code = 500))
   \<and> isAdmin ex_admin
   \<and> fst (book ex_env ex_user ex_id [ex_request ''A1''] (reopen ex_store_closed))
       = Response 200 (BookedSeats [(new_seat ex_id CHR ''A'' 1)\<lparr>bookings := [ex_entry]\<rparr>])
   \<and> fst (book ex_env ex_admin ex_id [ex_request ''A1''] ex_store_closed)
       = Response 200 (BookedSeats [(new_seat ex_id CHR ''A'' 1)\<lparr>bookings := [ex_entry]\<rparr>])
   \<and> seats (snd (book ex_env ex_admin ex_id [ex_request ''A1''] ex_store_closed))
       = seats (snd (book ex_env ex_user ex_id [ex_request ''A1''] (reopen ex_store_closed)))"
proof -
  have f: "findById ex_env ex_store_closed ex_id = Some (ex_event\<lparr>registrationClosed := True\<rparr>)
    \<and> registrationClosed (ex_event\<lparr>registrationClosed := True\<rparr>) \<and> \<not> isAdmin ex_user"
    by code_simp
  have a: "isAdmin ex_admin
     \<and> fst (book ex_env ex_user ex_id [ex_request ''A1''] (reopen ex_store_closed))
       = Response 200 (BookedSeats [(new_seat ex_id CHR ''A'' 1)\<lparr>bookings := [ex_entry]\<rparr>])"
    by code_simp
  show ?thesis
    using closed_registration_admin_override[where st = ex_store_closed and eid = ex_id
        and ev = "ex_event\<lparr>registrationClosed := True\<rparr>" and u = ex_user and en = ex_env
        and bs = "[ex_request ''A1'']" and a = ex_admin
        and body = "BookedSeats [(new_seat ex_id CHR ''A'' 1)\<lparr>bookings := [ex_entry]\<rparr>]"] f a
    by blast
qed

text \<open>
  Claim C8. Let \<^verbatim>\<open>isValidObjectId\<close> accept the identifier whenever it casts to an ObjectId,
  and let no two stored events share an \<^verbatim>\<open>_id\<close>. Closing registration succeeds exactly
  when a stored event carries the \<^verbatim>\<open>_id\<close> the identifier casts to and is open. Then it
  answers 200 and the store is the old one with that event closed, every other event and
  every seat as before; no open event of that \<^verbatim>\<open>_id\<close> is left, and closing again answers
  with an error and changes nothing. When there is no such event, or it is closed
  already, the call answers 400, 404 or 500 with an error and leaves the store as it
  was. In every case each stored event is either unchanged or went from open to closed,
  so no call reopens an event.
\<close>

theorem end_registration_once:
  assumes v: "castObjectId en i = None \<or> isValidObjectId en i" and d: "events_unique st"
  shows "(open_event_exists en st i \<longrightarrow>
            end_registration en i st
              = (Response 200 (Message ''Registration closed successfully''), close_event en i st)
            \<and> seats (close_event en i st) = seats st
            \<and> \<not> open_event_exists en (close_event en i st) i
            \<and> (\<exists>code m. end_registration en i (close_event en i st)
                            = (Response code (Error m), close_event en i st)
                  \<and> (code = 400 \<or> code = 404 \<or> code = 500)))
       \<and> (\<not> open_event_exists en st i \<longrightarrow>
            (\<exists>code m. end_registration en i st = (Response code (Error m), st)
               \<and> (code = 400 \<or> code = 404 \<or> code = 500)))
       \<and> list_all2 (\<lambda>e e'. e' = e \<or> (\<not> registrationClosed e \<and> e' = e\<lparr>registrationClosed := True\<rparr>))
            (events st) (events (snd (end_registration en i st)))"
proof -
  have 1: "open_event_exists en st i \<longrightarrow>
            end_registration en i st
              = (Response 200 (Message ''Registration closed successfully''), close_event en i st)"
    using end_registration_closes[OF v d] by simp
  have 2: "seats (close_event en i st) = seats st" by (simp add: close_event_def)
  have 3: "\<not> open_event_exists en (close_event en i st) i" by (rule close_event_closed)
  have 4: "\<exists>code m. end_registration en i (close_event en i st)
                            = (Response code (Error m), close_event en i st)
                  \<and> (code = 400 \<or> code = 404 \<or> code = 500)"
    using end_registration_fails[OF 3] .
  have 5: "\<not> open_event_exists en st i \<longrightarrow>
            (\<exists>code m. end_registration en i st = (Response code (Error m), st)
               \<and> (code = 400 \<or> code = 404 \<or> code = 500))"
    using end_registration_fails by simp
  show ?thesis using 1 2 3 4 5 end_registration_monotone[of st en i] by simp
qed

theorem end_registration_once_witness:
  "isValidObjectId ex_env ex_id_upper \<and> events_unique ex_store
   \<and> open_event_exists ex_env ex_store ex_id_upper
   \<and> close_event ex_env ex_id_upper ex_store = ex_store_closed
   \<and> end_registration ex_env ex_id_upper ex_store
       = (Response 200 (Message ''Registration closed successfully''), ex_store_closed)
   \<and> (\<exists>code m. end_registration ex_env ex_id_upper ex_store_closed
          = (Response code (Error m), ex_store_closed)
        \<and> (code = 400 \<or> code = 404 \<or> code = 500))"
proof -
  have v: "isValidObjectId ex_env ex_id_upper" by code_simp
  have d: "events_unique ex_store" by code_simp
  have o: "open_event_exists ex_env ex_store ex_id_upper" by code_simp
  have c: "close_event ex_env ex_id_upper ex_store = ex_store_closed" by code_simp
  show ?thesis
    using end_registration_once[OF disjI2[OF v] d] v d o c by simp
qed

text \<open>
  Claim C9, as stated: a booking answered 200 appends to each referenced seat one entry
  carrying the supplied occupant name. It fails for a name with surrounding white space:
  the schema of the entry trims name, email and phone, so the request for A1 in the name
  \<^verbatim>\<open>" Asha"\<close> is answered 200 and stores the name \<^verbatim>\<open>"Asha"\<close>.
\<close>

theorem book_stores_trimmed_name:
  "book ex_env ex_user ex_id [ex_request_padded] ex_store
     = (Response 200 (BookedSeats [(new_seat ex_id CHR ''A'' 1)\<lparr>bookings := [ex_entry]\<rparr>]),
        ex_store_a1)
   \<and> name (bookedBy ex_entry) \<noteq> rq_name ex_request_padded"
  by code_simp

text \<open>
  Claim C9, amended. Let the store respect the unique index on (event, seat identifier).
  A booking that is answered 200, or that at least changes the store, has an identifier
  that casts to an ObjectId and a batch of pairwise distinct seat identifiers, each
  naming a stored seat of the event with that \<^verbatim>\<open>_id\<close>. It leaves the events and the number
  of stored seats as they were; each seat of that event named by the batch gets exactly
  one entry appended to its ledger, made of the batch date, the name, email and phone of
  its request as \<^verbatim>\<open>String.prototype.trim\<close> returns them, and status booked, its earlier
  entries staying in place; every other seat is unchanged.
\<close>

theorem book_appends_one_entry_per_seat:
  assumes u: "seats_unique st" and first: "book en u eid bs st = (a, st')"
    and ok: "a = Response 200 body \<or> st' \<noteq> st"
  shows "\<exists>c. castObjectId en eid = Some c
     \<and> distinct (map rq_seatId bs)
     \<and> (\<forall>b\<in>set bs. \<exists>s\<in>set (seats st). eventId s = c \<and> seatId s = rq_seatId b)
     \<and> events st' = events st
     \<and> length (seats st') = length (seats st)
     \<and> (\<forall>i<length (seats st).
          (eventId (seats st ! i) = c \<and> seatId (seats st ! i) \<in> rq_seatId ` set bs \<longrightarrow>
             (\<exists>b\<in>set bs. rq_seatId b = seatId (seats st ! i)
                \<and> seats st' ! i = (seats st ! i)\<lparr>bookings := bookings (seats st ! i) @
                     [\<lparr>date = bookingDate b,
                       bookedBy = \<lparr>name = trim (rq_name b), email = trim (rq_email b),
                                   phone = map_option trim (rq_phone b)\<rparr>,
                       status = Booked\<rparr>]\<rparr>))
          \<and> (\<not> (eventId (seats st ! i) = c \<and> seatId (seats st ! i) \<in> rq_seatId ` set bs) \<longrightarrow>
               seats st' ! i = seats st ! i))"
proof -
  from book_committed[OF first ok] obtain ev ss gs where
    t: "book_txn en u eid bs st = Inr (ev, ss, gs, st')" by blast
  note d = book_txn_InrD[OF t]
  note c = book_txn_seats[OF u t]
  have 0: "castObjectId en eid = Some (ev_id ev)" using findById_SomeD[OF d(1)] by simp
  have 1: "distinct (map rq_seatId bs)" by (rule d(4))
  have 2: "\<forall>b\<in>set bs. \<exists>s\<in>set (seats st). eventId s = ev_id ev \<and> seatId s = rq_seatId b"
  proof
    fix b assume "b \<in> set bs"
    then have "rq_seatId b \<in> seatId ` set (find_seats st (map rq_seatId bs) (ev_id ev))"
      using c(2) by simp
    then show "\<exists>s\<in>set (seats st). eventId s = ev_id ev \<and> seatId s = rq_seatId b"
      by (auto simp: find_seats_def in_batch_def)
  qed
  have 3: "events st' = events st" using book_txn_grows[OF t] by (simp add: store_grows_def)
  have 4: "length (seats st') = length (seats st)" using c(1) by simp
  have 5: "\<exists>b\<in>set bs. rq_seatId b = seatId (seats st ! i)
                \<and> seats st' ! i = (seats st ! i)\<lparr>bookings := bookings (seats st ! i) @
                     [\<lparr>date = bookingDate b,
                       bookedBy = \<lparr>name = trim (rq_name b), email = trim (rq_email b),
                                   phone = map_option trim (rq_phone b)\<rparr>,
                       status = Booked\<rparr>]\<rparr>"
    if i: "i < length (seats st)" and e: "eventId (seats st ! i) = ev_id ev"
      and m: "seatId (seats st ! i) \<in> rq_seatId ` set bs" for i
  proof -
    obtain b where b: "find (\<lambda>b. rq_seatId b = seatId (seats st ! i)) bs = Some b"
      using m by (cases "find (\<lambda>b. rq_seatId b = seatId (seats st ! i)) bs")
                 (auto simp: find_None_iff)
    then have bb: "b \<in> set bs" "rq_seatId b = seatId (seats st ! i)"
      by (auto simp: find_Some_iff)
    have "seats st' ! i = booked_seat bs (seats st ! i)" using c(1) i e by simp
    then show ?thesis using b bb by (auto simp: booked_seat_def new_booking_def)
  qed
  have 6: "seats st' ! i = seats st ! i"
    if i: "i < length (seats st)"
      and n: "\<not> (eventId (seats st ! i) = ev_id ev \<and> seatId (seats st ! i) \<in> rq_seatId ` set bs)"
    for i
    using c(1) i n by (auto simp: booked_seat_absent)
  show ?thesis using 0 1 2 3 4 5 6 by blast
qed

theorem book_appends_one_entry_per_seat_witness:
  "seats_unique ex_store
   \<and> book ex_env ex_user ex_id_upper [ex_request_padded, ex_request_nbsp] ex_store
       = (Response 200 (BookedSeats [(new_seat ex_id CHR ''A'' 1)\<lparr>bookings := [ex_entry]\<rparr>,
                                     (new_seat ex_id CHR ''A'' 2)\<lparr>bookings := [ex_entry]\<rparr>]),
          ex_store_booked)
   \<and> castObjectId ex_env ex_id_upper = Some ex_id
   \<and> (\<exists>c. castObjectId ex_env ex_id_upper = Some c
          \<and> distinct (map rq_seatId [ex_request_padded, ex_request_nbsp])
          \<and> events ex_store_booked = events ex_store
          \<and> length (seats ex_store_booked) = length (seats ex_store))"
proof -
  have u: "seats_unique ex_store" by code_simp
  have f: "book ex_env ex_user ex_id_upper [ex_request_padded, ex_request_nbsp] ex_store
       = (Response 200 (BookedSeats [(new_seat ex_id CHR ''A'' 1)\<lparr>bookings := [ex_entry]\<rparr>,
                                     (new_seat ex_id CHR ''A'' 2)\<lparr>bookings := [ex_entry]\<rparr>]),
          ex_store_booked)"
    by code_simp
  have k: "castObjectId ex_env ex_id_upper = Some ex_id" by code_simp
  show ?thesis using book_appends_one_entry_per_seat[OF u f disjI1[OF refl]] u f k by blast
qed

text \<open>
  Claim C10. In both seat listings for a date \<open>d\<close> (the seats of the event of that date,
  and the seats named by identifier), every returned seat is a stored seat, and it is
  reported booked, with the occupant of an entry of date \<open>d\<close>, exactly when its ledger
  holds an entry whose date is \<open>d\<close>; otherwise it is reported available with no occupant.
  Entries of any other date play no part.
\<close>

theorem seat_listing_status:
  assumes "get_seats en d st = (Response 200 (SeatList vs), st')
           \<or> get_seats_by_ids en q d st = (Response 200 (SeatList vs), st')"
  shows "\<forall>v\<in>set vs.
           sv_seat v \<in> set (seats st')
           \<and> (if \<exists>e\<in>set (bookings (sv_seat v)). date e = d
               then sv_status v = StatusBooked
                    \<and> (\<exists>e\<in>set (bookings (sv_seat v)). date e = d \<and> sv_bookedBy v = Some (bookedBy e))
               else sv_status v = StatusAvailable \<and> sv_bookedBy v = None)"
proof -
  from assms obtain ss where vs: "vs = map (seat_with_status d) ss" and ss: "set ss \<subseteq> set (seats st')"
    using get_seats_listing[of en d st vs st'] get_seats_by_ids_listing[of en q d st vs st']
    by (auto simp: seats_of_event_def find_seats_def)
  show ?thesis
  proof
    fix v assume "v \<in> set vs"
    then obtain s where s: "s \<in> set ss" "v = seat_with_status d s" using vs by auto
    show "sv_seat v \<in> set (seats st')
           \<and> (if \<exists>e\<in>set (bookings (sv_seat v)). date e = d
               then sv_status v = StatusBooked
                    \<and> (\<exists>e\<in>set (bookings (sv_seat v)). date e = d \<and> sv_bookedBy v = Some (bookedBy e))
               else sv_status v = StatusAvailable \<and> sv_bookedBy v = None)"
      using seat_with_status_cases[of d s] s ss by auto
  qed
qed

theorem seat_listing_status_witness:
  "get_seats ex_env ''2025-06-01'' ex_store_a1
     = (Response 200 (SeatList [ex_booked_view, ex_available (new_seat ex_id CHR ''A'' 2),
                                ex_available (new_seat ex_id CHR ''A'' 3)]), ex_store_a1)
   \<and> sv_seat ex_booked_view \<in> set (seats ex_store_a1)
   \<and> (\<exists>e\<in>set (bookings (sv_seat ex_booked_view)). date e = ''2025-06-01'')
   \<and> sv_status ex_booked_view = StatusBooked
   \<and> (\<exists>e\<in>set (bookings (sv_seat ex_booked_view)).
         date e = ''2025-06-01'' \<and> sv_bookedBy ex_booked_view = Some (bookedBy e))"
proof -
  have g: "get_seats ex_env ''2025-06-01'' ex_store_a1
     = (Response 200 (SeatList [ex_booked_view, ex_available (new_seat ex_id CHR ''A'' 2),
                                ex_available (new_seat ex_id CHR ''A'' 3)]), ex_store_a1)"
    by code_simp
  have e: "\<exists>e\<in>set (bookings (sv_seat ex_booked_view)). date e = ''2025-06-01''"
    by (simp add: ex_booked_view_def ex_entry_def)
  have "sv_seat ex_booked_view \<in> set (seats ex_store_a1)
           \<and> (if \<exists>e\<in>set (bookings (sv_seat ex_booked_view)). date e = ''2025-06-01''
               then sv_status ex_booked_view = StatusBooked
                    \<and> (\<exists>e\<in>set (bookings (sv_seat ex_booked_view)).
                          date e = ''2025-06-01'' \<and> sv_bookedBy ex_booked_view = Some (bookedBy e))
               else sv_status ex_booked_view = StatusAvailable \<and> sv_bookedBy ex_booked_view = None)"
    using seat_listing_status[OF disjI1[OF g]] by simp
  then show ?thesis using g e by simp
qed

end
